theory Spec2Isabelle
  imports Main "HOL-Library.Sublist"
begin

section \<open>Python string operations used by the two scripts\<close>

text \<open>
  A Python \<open>str\<close> is modelled as a \<open>string\<close>, one \<open>char\<close> per code point; the
  code points are those below 256. The two line boundaries of \<open>str.splitlines\<close>
  above that range (U+2028 and U+2029) are therefore not part of the model.
\<close>

definition LF :: char where
  "LF = CHR 0x0A"

definition CR :: char where
  "CR = CHR 0x0D"

definition backslash :: char where
  "backslash = CHR 0x5C"

text \<open>\<open>sub in s\<close> for two strings: \<open>sub\<close> occurs in \<open>s\<close> as a contiguous run.\<close>

fun str_in :: "string \<Rightarrow> string \<Rightarrow> bool" where
  "str_in sub [] = (sub = [])"
| "str_in sub (c # cs) = (prefix sub (c # cs) \<or> str_in sub cs)"

text \<open>
  \<open>s.split(sep)\<close> for a non-empty separator: the occurrences of \<open>sep\<close> are found
  from the left and do not overlap; the result always has at least one piece.
  (Python raises ValueError for an empty separator; the scripts only pass the
  literals \<open>START\<close> and \<open>END\<close>.)
\<close>

fun split_from :: "string \<Rightarrow> string \<Rightarrow> string \<Rightarrow> string list" where
  "split_from sep piece [] = [piece]"
| "split_from sep piece (c # cs) =
     (if prefix sep (c # cs)
      then piece # split_from sep [] (drop (length sep - 1) cs)
      else split_from sep (piece @ [c]) cs)"

definition split_str :: "string \<Rightarrow> string \<Rightarrow> string list" where
  "split_str sep s = split_from sep [] s"

text \<open>
  \<open>s.replace(old, new)\<close> for a non-empty \<open>old\<close>: every occurrence, found from the
  left without overlap, is replaced.
\<close>

fun replace_str :: "string \<Rightarrow> string \<Rightarrow> string \<Rightarrow> string" where
  "replace_str old new [] = []"
| "replace_str old new (c # cs) =
     (if prefix old (c # cs)
      then new @ replace_str old new (drop (length old - 1) cs)
      else c # replace_str old new cs)"

text \<open>\<open>sep.join(xs)\<close>.\<close>

fun join_str :: "string \<Rightarrow> string list \<Rightarrow> string" where
  "join_str sep [] = []"
| "join_str sep [x] = x"
| "join_str sep (x # y # ys) = x @ sep @ join_str sep (y # ys)"

text \<open>
  The line boundaries of \<open>str.splitlines\<close>: line feed, vertical tab, form feed,
  carriage return, the file, group and record separators, and NEL.
\<close>

definition is_linebreak :: "char \<Rightarrow> bool" where
  "is_linebreak c =
     (c = CHR 0x0A \<or> c = CHR 0x0B \<or> c = CHR 0x0C \<or> c = CHR 0x0D \<or>
      c = CHR 0x1C \<or> c = CHR 0x1D \<or> c = CHR 0x1E \<or> c = CHR 0x85)"

text \<open>What is left after the line boundary at the head of a string: \<open>\r\n\<close> counts once.\<close>

fun after_break :: "string \<Rightarrow> string" where
  "after_break [] = []"
| "after_break [c] = []"
| "after_break (c # d # cs) = (if c = CR \<and> d = LF then cs else d # cs)"

text \<open>
  \<open>s.splitlines()\<close>: while characters remain, read up to the next line boundary,
  emit the line without the boundary and skip the boundary. The empty string has
  no lines, and a boundary at the very end does not open a further line.
\<close>

function splitlines :: "string \<Rightarrow> string list" where
  "splitlines s =
     (if s = [] then []
      else takeWhile (\<lambda>c. \<not> is_linebreak c) s
           # splitlines (after_break (dropWhile (\<lambda>c. \<not> is_linebreak c) s)))"
  by pat_completeness auto

termination splitlines
proof (relation "measure length")
  show "wf (measure (length :: string \<Rightarrow> nat))"
    by simp
next
  fix s :: string
  assume ne: "s \<noteq> []"
  define r where "r = dropWhile (\<lambda>c. \<not> is_linebreak c) s"
  have "length (after_break r) \<le> length r - 1"
    by (induction r rule: after_break.induct) auto
  also have "\<dots> \<le> length s - 1"
    unfolding r_def using length_dropWhile_le [of "\<lambda>c. \<not> is_linebreak c" s] by simp
  also have "\<dots> < length s"
    using ne by (cases s) auto
  finally show "(after_break (dropWhile (\<lambda>c. \<not> is_linebreak c) s), s) \<in> measure length"
    unfolding r_def by simp
qed

declare splitlines.simps [simp del]

section \<open>The benchmark formatter (tools/compiletime-benchmark/format.py)\<close>

datatype error =
    IndexError
  | CalledProcessError int string
  | OSError string

text \<open>
  \<open>read_file\<close>: the argument is the text that \<open>open(...).read()\<close> returns. It is
  split at \<open>START\<close>, every piece is split at \<open>END\<close>, and the pieces are chained.
\<close>

definition read_file :: "string \<Rightarrow> string list" where
  "read_file f = concat (map (\<lambda>x. split_str ''END'' x) (split_str ''START'' f))"

text \<open>The initial value of \<open>markdown\<close>: the triple-quoted literal of the source.\<close>

definition markdown_header :: string where
  "markdown_header =
     [LF] @ ''    | sdk name | dev | release | dev all features | release all features |''
   @ [LF] @ ''    | -------- | --- | ------- | ---------------- | -------------------- |''
   @ [LF] @ ''    ''"

text \<open>
  The inner loop over \<open>i.splitlines()\<close>: a line without \<open>+\<close> is appended to
  \<open>outputs\<close> with every \<open>" seconds"\<close> removed.
\<close>

definition chunk_outputs :: "string \<Rightarrow> string list" where
  "chunk_outputs i =
     fold (\<lambda>l outputs.
             if \<not> str_in ''+'' l then outputs @ [replace_str '' seconds'' [] l]
             else outputs)
          (splitlines i) []"

text \<open>
  One pass of the outer loop on chunk \<open>i\<close>: \<open>continue\<close> unless six lines were kept;
  otherwise drop the first, take \<open>outputs[0]\<close> as the SDK name (IndexError on an
  empty list) and append the row to \<open>markdown\<close>.
\<close>

definition parser_step :: "string \<Rightarrow> string \<Rightarrow> error + string" where
  "parser_step i markdown =
     (let outputs = chunk_outputs i in
      if length outputs \<noteq> 6 then Inr markdown
      else
        let outputs = drop 1 outputs in
        (case outputs of
           [] \<Rightarrow> Inl IndexError
         | sdk_name # _ \<Rightarrow>
             let row = ''|'' @ sdk_name @ ''|'' @ join_str ''|'' (drop 1 outputs) @ ''|''
             in Inr (markdown @ row)))"

fun parser_loop :: "string list \<Rightarrow> string \<Rightarrow> error + string" where
  "parser_loop [] markdown = Inr markdown"
| "parser_loop (i # rest) markdown =
     (case parser_step i markdown of
        Inl e \<Rightarrow> Inl e
      | Inr markdown' \<Rightarrow> parser_loop rest markdown')"

text \<open>
  \<open>parser\<close>: the returned string. (\<open>print(i)\<close> writes each chunk to standard output
  and has no influence on the result.)
\<close>

definition parser :: "string list \<Rightarrow> error + string" where
  "parser iter = parser_loop iter markdown_header"

text \<open>The formatter on a file content: \<open>parser(read_file())\<close>.\<close>

definition format_text :: "string \<Rightarrow> error + string" where
  "format_text f = parser (read_file f)"

text \<open>
  The row a chunk contributes to the table, written out: the empty string unless
  six lines are kept, and then the second to sixth of them between bars.
\<close>

definition chunk_row :: "string \<Rightarrow> string" where
  "chunk_row i =
     (if length (chunk_outputs i) = 6
      then ''|'' @ chunk_outputs i ! 1 @ ''|'' @ join_str ''|'' (drop 2 (chunk_outputs i)) @ ''|''
      else [])"

text \<open>
  Inserting the line \<open>l\<close>, terminated by a line feed, in front of line number \<open>k\<close>
  (counted from 0) of a text. Past the last line it is appended, after a line feed
  when the last line of the text has no terminator of its own.
\<close>

fun insert_line :: "nat \<Rightarrow> string \<Rightarrow> string \<Rightarrow> string" where
  "insert_line k l [] = l @ [LF]"
| "insert_line 0 l (c # cs) = l @ [LF] @ c # cs"
| "insert_line (Suc k) l [c] =
     (if is_linebreak c then c # insert_line k l [] else c # LF # l @ [LF])"
| "insert_line (Suc k) l (c # d # cs) =
     (if c = CR \<and> d = LF then c # d # insert_line k l cs
      else if is_linebreak c then c # insert_line k l (d # cs)
      else c # insert_line (Suc k) l (d # cs))"



section \<open>The codegen diff pipeline (tools/ci-scripts/codegen-diff/diff_lib.py)\<close>

definition HEAD_BRANCH_NAME :: string where
  "HEAD_BRANCH_NAME = ''__tmp-localonly-head''"

definition BASE_BRANCH_NAME :: string where
  "BASE_BRANCH_NAME = ''__tmp-localonly-base''"

definition OUTPUT_PATH :: string where
  "OUTPUT_PATH = ''tmp-codegen-diff''"

definition COMMIT_AUTHOR_NAME :: string where
  "COMMIT_AUTHOR_NAME = ''GitHub Action (generated code preview)''"

definition COMMIT_AUTHOR_EMAIL :: string where
  "COMMIT_AUTHOR_EMAIL = ''generated-code-action@github.com''"

definition CDN_URL :: string where
  "CDN_URL = ''https://d2luzm2xt3nokh.cloudfront.net''"

subsection \<open>Running commands\<close>

text \<open>
  The operating system is a parameter: \<open>ex command shell w\<close> is what
  \<open>subprocess.run\<close> does with the command (split by \<open>shlex\<close> when \<open>shell\<close> is
  false) in the world \<open>w\<close>. It yields the exit status, or \<open>None\<close> when the call
  itself raises (a command line that \<open>shlex\<close> rejects, a program that cannot be
  started), and the world afterwards.

  The state of a run holds that world, the commands executed so far with their
  \<open>shell\<close> flag, and the lines \<open>eprint\<close> wrote to standard error.
\<close>

type_synonym 'w exec = "string \<Rightarrow> bool \<Rightarrow> 'w \<Rightarrow> int option \<times> 'w"

record 'w state =
  world :: 'w
  calls :: "(string \<times> bool) list"
  stderr_lines :: "string list"

definition eprint :: "string \<Rightarrow> 'w state \<Rightarrow> 'w state" where
  "eprint text s = s\<lparr>stderr_lines := stderr_lines s @ [text]\<rparr>"

text \<open>\<open>run\<close>: with \<open>check\<close>, a non-zero exit status raises CalledProcessError.\<close>

definition run :: "'w exec \<Rightarrow> string \<Rightarrow> bool \<Rightarrow> bool \<Rightarrow> 'w state \<Rightarrow> error + 'w state" where
  "run ex command shell check s =
     (case ex command shell (world s) of
        (None, w) \<Rightarrow> Inl (OSError command)
      | (Some returncode, w) \<Rightarrow>
          if check \<and> returncode \<noteq> 0 then Inl (CalledProcessError returncode command)
          else Inr (s\<lparr>world := w, calls := calls s @ [(command, shell)]\<rparr>))"

text \<open>\<open>get_cmd_status\<close>: the command goes to the shell and its exit status is returned.\<close>

definition get_cmd_status :: "'w exec \<Rightarrow> string \<Rightarrow> 'w state \<Rightarrow> error + int \<times> 'w state" where
  "get_cmd_status ex command s =
     (case ex command True (world s) of
        (None, w) \<Rightarrow> Inl (OSError command)
      | (Some returncode, w) \<Rightarrow>
          Inr (returncode, s\<lparr>world := w, calls := calls s @ [(command, True)]\<rparr>))"

text \<open>A sequence of \<open>run\<close> calls, each given as (command, shell, check); the first
  one that raises ends the sequence.\<close>

fun run_all :: "'w exec \<Rightarrow> (string \<times> bool \<times> bool) list \<Rightarrow> 'w state \<Rightarrow> error + 'w state" where
  "run_all ex [] s = Inr s"
| "run_all ex ((command, shell, check) # rest) s =
     (case run ex command shell check s of
        Inl e \<Rightarrow> Inl e
      | Inr s' \<Rightarrow> run_all ex rest s')"

subsection \<open>generate_and_commit_generated_code\<close>

text \<open>
  The body of \<open>generate_and_commit_generated_code\<close> is a straight line of \<open>run\<close>
  calls; which calls are made depends on \<open>targets\<close> only. \<open>generate_commands\<close>
  lists them in the order of the source. \<open>targets\<close> is \<open>None\<close> when the argument
  is left out; \<open>targets or [...]\<close> also replaces an empty list by the default.
\<close>

definition default_targets :: "string list" where
  "default_targets = [''codegen-client-test'', ''codegen-server-test'', ''aws:sdk'']"

definition find_cleanup :: "string \<Rightarrow> string" where
  "find_cleanup dir =
     ''find '' @ OUTPUT_PATH @ ''/'' @ dir @ '' | ''
     @ ''grep -E 'smithy-build-info.json|sources/manifest|model.json' | ''
     @ ''xargs rm -f''"

definition generate_commands :: "string \<Rightarrow> string list option \<Rightarrow> (string \<times> bool \<times> bool) list" where
  "generate_commands revision_sha targets_arg =
     (let targets = (case targets_arg of
                       None \<Rightarrow> default_targets
                     | Some [] \<Rightarrow> default_targets
                     | Some ts \<Rightarrow> ts);
          tasks = join_str '' '' (map (\<lambda>t. t @ '':assemble'') targets)
      in
        [(''rm -rf aws/sdk/build'', False, True)]
        @ (if ''codegen-server-test'' \<in> set targets
           then [(''cd rust-runtime/aws-smithy-http-server-python/examples && make distclean'',
                  True, True)]
           else [])
        @ [(''./gradlew codegen-core:clean codegen-client:clean codegen-server:clean aws:sdk-codegen:clean'',
            False, True)]
        @ [(''./gradlew --rerun-tasks '' @ tasks, False, True)]
        @ (if ''codegen-server-test'' \<in> set targets
           then [(''cd rust-runtime/aws-smithy-http-server-python/examples && make build'',
                  True, False)]
           else [])
        @ [(''rm -rf '' @ OUTPUT_PATH, False, True)]
        @ [(''mkdir '' @ OUTPUT_PATH, False, True)]
        @ (if ''aws:sdk'' \<in> set targets
           then [(''mv aws/sdk/build/aws-sdk '' @ OUTPUT_PATH @ ''/'', False, True)]
           else [])
        @ concat (map (\<lambda>target.
             if target \<in> set targets
             then [(''mv '' @ target @ ''/build/smithyprojections/'' @ target @ '' ''
                    @ OUTPUT_PATH @ ''/'', False, True)]
                  @ (if target = ''codegen-server-test''
                     then [(''mv rust-runtime/aws-smithy-http-server-python/examples/pokemon-service-server-sdk/ ''
                            @ OUTPUT_PATH @ ''/codegen-server-test-python/'', False, False)]
                     else [])
             else [])
           [''codegen-client'', ''codegen-server''])
        @ [(''rm -f '' @ OUTPUT_PATH @ ''/aws-sdk/versions.toml'', False, True)]
        @ [(''rm -rf '' @ OUTPUT_PATH @ ''/codegen-client-test/source'', False, True)]
        @ [(find_cleanup ''codegen-client-test'', True, True)]
        @ [(''rm -rf '' @ OUTPUT_PATH @ ''/codegen-server-test/source'', False, True)]
        @ [(find_cleanup ''codegen-server-test'', True, True)]
        @ [(''git add -f '' @ OUTPUT_PATH, False, True)]
        @ [(''git -c 'user.name=GitHub Action (generated code preview)' ''
            @ ''-c 'user.name='' @ COMMIT_AUTHOR_NAME @ [CHR 0x27] @ '' ''
            @ ''-c 'user.email='' @ COMMIT_AUTHOR_EMAIL @ [CHR 0x27] @ '' ''
            @ ''commit --no-verify -m 'Generated code for '' @ revision_sha @ [CHR 0x27]
            @ '' --allow-empty'', False, True)])"

definition generate_and_commit_generated_code ::
    "'w exec \<Rightarrow> string \<Rightarrow> string list option \<Rightarrow> 'w state \<Rightarrow> error + 'w state" where
  "generate_and_commit_generated_code ex revision_sha targets s =
     run_all ex (generate_commands revision_sha targets) s"

subsection \<open>make_diff\<close>

definition whitespace_flag :: "bool \<Rightarrow> string" where
  "whitespace_flag whitespace = (if whitespace then [] else ''-b'')"

definition quiet_diff_cmd :: "string \<Rightarrow> bool \<Rightarrow> string" where
  "quiet_diff_cmd path_to_diff whitespace =
     ''git diff --quiet '' @ whitespace_flag whitespace @ '' ''
     @ BASE_BRANCH_NAME @ '' '' @ HEAD_BRANCH_NAME @ '' -- '' @ path_to_diff"

definition partial_output_path :: "string \<Rightarrow> string \<Rightarrow> string \<Rightarrow> string" where
  "partial_output_path base_commit_sha head_commit_sha sfx =
     base_commit_sha @ ''/'' @ head_commit_sha @ ''/'' @ sfx"

definition full_output_path :: "string \<Rightarrow> string \<Rightarrow> string \<Rightarrow> string" where
  "full_output_path base_commit_sha head_commit_sha sfx =
     OUTPUT_PATH @ ''/'' @ partial_output_path base_commit_sha head_commit_sha sfx"

definition mkdir_cmd :: "string \<Rightarrow> string \<Rightarrow> string \<Rightarrow> string" where
  "mkdir_cmd base_commit_sha head_commit_sha sfx =
     ''mkdir -p '' @ full_output_path base_commit_sha head_commit_sha sfx"

definition unified_diff_cmd :: "string \<Rightarrow> bool \<Rightarrow> string" where
  "unified_diff_cmd path_to_diff whitespace =
     ''git diff --output=codegen-diff.txt -U30 '' @ whitespace_flag whitespace @ '' ''
     @ BASE_BRANCH_NAME @ '' '' @ HEAD_BRANCH_NAME @ '' -- '' @ path_to_diff"

definition diff_cmd :: "string \<Rightarrow> string \<Rightarrow> string \<Rightarrow> string \<Rightarrow> bool \<Rightarrow> string" where
  "diff_cmd title base_commit_sha head_commit_sha sfx whitespace =
     (let whitespace_context = (if whitespace then [] else ''(ignoring whitespace)'');
          subtitle = ''rev. '' @ head_commit_sha @ '' '' @ whitespace_context
      in ''difftags --output-dir '' @ full_output_path base_commit_sha head_commit_sha sfx
         @ '' --title '' @ [CHR 0x22] @ title @ [CHR 0x22]
         @ '' --subtitle '' @ [CHR 0x22] @ subtitle @ [CHR 0x22]
         @ '' codegen-diff.txt'')"

definition no_diff_line :: "string \<Rightarrow> string \<Rightarrow> string \<Rightarrow> string" where
  "no_diff_line base_commit_sha head_commit_sha sfx =
     ''No diff output for '' @ base_commit_sha @ ''..'' @ head_commit_sha
     @ '' ('' @ sfx @ '')''"

text \<open>\<open>make_diff\<close> returns \<open>None\<close> or the location of the rendered diff.\<close>

definition make_diff ::
    "'w exec \<Rightarrow> string \<Rightarrow> string \<Rightarrow> string \<Rightarrow> string \<Rightarrow> string \<Rightarrow> bool \<Rightarrow> 'w state
       \<Rightarrow> error + string option \<times> 'w state" where
  "make_diff ex title path_to_diff base_commit_sha head_commit_sha sfx whitespace s =
     (case get_cmd_status ex (quiet_diff_cmd path_to_diff whitespace) s of
        Inl e \<Rightarrow> Inl e
      | Inr (diff_exists, s1) \<Rightarrow>
          if diff_exists = 0
          then Inr (None, eprint (no_diff_line base_commit_sha head_commit_sha sfx) s1)
          else
            (case run ex (mkdir_cmd base_commit_sha head_commit_sha sfx) False True s1 of
               Inl e \<Rightarrow> Inl e
             | Inr s2 \<Rightarrow>
            (case run ex (unified_diff_cmd path_to_diff whitespace) False True s2 of
               Inl e \<Rightarrow> Inl e
             | Inr s3 \<Rightarrow>
            (let cmd = diff_cmd title base_commit_sha head_commit_sha sfx whitespace in
             case run ex cmd False True (eprint (''Running diff cmd: '' @ cmd) s3) of
               Inl e \<Rightarrow> Inl e
             | Inr s4 \<Rightarrow>
                 Inr (Some (partial_output_path base_commit_sha head_commit_sha sfx
                            @ ''/index.html''), s4)))))"

subsection \<open>diff_link\<close>

text \<open>How an f-string renders a value that is a string or \<open>None\<close>.\<close>

fun format_opt :: "string option \<Rightarrow> string" where
  "format_opt None = ''None''"
| "format_opt (Some x) = x"

definition diff_link ::
    "string \<Rightarrow> string \<Rightarrow> string option \<Rightarrow> string \<Rightarrow> string option \<Rightarrow> string" where
  "diff_link diff_text empty_diff_text diff_location alternate_text alternate_location =
     (case diff_location of
        None \<Rightarrow> empty_diff_text
      | Some location \<Rightarrow>
          ''['' @ diff_text @ '']('' @ CDN_URL @ ''/codegen-diff/'' @ location @ '') ([''
          @ alternate_text @ '']('' @ CDN_URL @ ''/codegen-diff/''
          @ format_opt alternate_location @ ''))'')"

subsection \<open>make_diffs\<close>

text \<open>The two characters \<open>\n\<close> that the message carries in place of a newline.\<close>

definition escaped_newline :: string where
  "escaped_newline = [backslash, CHR ''n'']"

text \<open>
  The second half of \<open>make_diffs\<close>: the four link fragments and the message, as a
  function of the eight results of \<open>make_diff\<close>.
\<close>

definition make_diffs_message ::
    "string option \<Rightarrow> string option \<Rightarrow> string option \<Rightarrow> string option \<Rightarrow>
     string option \<Rightarrow> string option \<Rightarrow> string option \<Rightarrow> string option \<Rightarrow> string" where
  "make_diffs_message sdk_ws sdk_nows client_ws client_nows
                      server_ws server_nows server_ws_python server_nows_python =
     (let sdk_links = diff_link ''AWS SDK'' ''No codegen difference in the AWS SDK''
                        sdk_ws ''ignoring whitespace'' sdk_nows;
          client_links = diff_link ''Client Test'' ''No codegen difference in the Client Test''
                        client_ws ''ignoring whitespace'' client_nows;
          server_links = diff_link ''Server Test'' ''No codegen difference in the Server Test''
                        server_ws ''ignoring whitespace'' server_nows;
          server_links_python =
                      diff_link ''Server Test Python''
                        ''No codegen difference in the Server Test Python''
                        server_ws_python ''ignoring whitespace'' server_nows_python
      in ''A new generated diff is ready to view.'' @ escaped_newline
         @ ''- '' @ sdk_links @ escaped_newline
         @ ''- '' @ client_links @ escaped_newline
         @ ''- '' @ server_links @ escaped_newline
         @ ''- '' @ server_links_python @ escaped_newline)"

text \<open>Sequencing of two steps that may raise.\<close>

definition and_then ::
    "('s \<Rightarrow> error + 'a \<times> 's) \<Rightarrow> ('a \<Rightarrow> 's \<Rightarrow> error + 'b \<times> 's) \<Rightarrow> 's \<Rightarrow> error + 'b \<times> 's" where
  "and_then m f s = (case m s of Inl e \<Rightarrow> Inl e | Inr (a, s') \<Rightarrow> f a s')"

definition make_diffs :: "'w exec \<Rightarrow> string \<Rightarrow> string \<Rightarrow> 'w state \<Rightarrow> error + string \<times> 'w state" where
  "make_diffs ex base_commit_sha head_commit_sha =
     and_then (make_diff ex ''AWS SDK'' (OUTPUT_PATH @ ''/aws-sdk'') base_commit_sha
                 head_commit_sha ''aws-sdk'' True) (\<lambda>sdk_ws.
     and_then (make_diff ex ''AWS SDK'' (OUTPUT_PATH @ ''/aws-sdk'') base_commit_sha
                 head_commit_sha ''aws-sdk-ignore-whitespace'' False) (\<lambda>sdk_nows.
     and_then (make_diff ex ''Client Test'' (OUTPUT_PATH @ ''/codegen-client-test'')
                 base_commit_sha head_commit_sha ''client-test'' True) (\<lambda>client_ws.
     and_then (make_diff ex ''Client Test'' (OUTPUT_PATH @ ''/codegen-client-test'')
                 base_commit_sha head_commit_sha ''client-test-ignore-whitespace'' False)
       (\<lambda>client_nows.
     and_then (make_diff ex ''Server Test'' (OUTPUT_PATH @ ''/codegen-server-test'')
                 base_commit_sha head_commit_sha ''server-test'' True) (\<lambda>server_ws.
     and_then (make_diff ex ''Server Test'' (OUTPUT_PATH @ ''/codegen-server-test'')
                 base_commit_sha head_commit_sha ''server-test-ignore-whitespace'' False)
       (\<lambda>server_nows.
     and_then (make_diff ex ''Server Test Python''
                 (OUTPUT_PATH @ ''/codegen-server-test-python'')
                 base_commit_sha head_commit_sha ''server-test-python'' True)
       (\<lambda>server_ws_python.
     and_then (make_diff ex ''Server Test Python''
                 (OUTPUT_PATH @ ''/codegen-server-test-python'')
                 base_commit_sha head_commit_sha ''server-test-python-ignore-whitespace'' False)
       (\<lambda>server_nows_python s.
     Inr (make_diffs_message sdk_ws sdk_nows client_ws client_nows
            server_ws server_nows server_ws_python server_nows_python, s)))))))))"


section \<open>Properties of the benchmark formatter\<close>

lemma splitlines_Nil [simp]: "splitlines [] = []"
  by (simp add: splitlines.simps)

lemma splitlines_Cons:
  "splitlines (c # cs) =
     takeWhile (\<lambda>c. \<not> is_linebreak c) (c # cs)
     # splitlines (after_break (dropWhile (\<lambda>c. \<not> is_linebreak c) (c # cs)))"
  by (subst splitlines.simps) simp

lemma str_in_single: "str_in [c] l \<longleftrightarrow> c \<in> set l"
  by (induction l) auto

lemma fold_keep:
  "fold (\<lambda>l outputs. if \<not> str_in ''+'' l then outputs @ [g l] else outputs) ls acc
     = acc @ map g (filter (\<lambda>l. CHR ''+'' \<notin> set l) ls)"
  by (induction ls arbitrary: acc) (simp_all add: str_in_single)

lemma chunk_outputs_eq:
  "chunk_outputs i =
     map (replace_str '' seconds'' []) (filter (\<lambda>l. CHR ''+'' \<notin> set l) (splitlines i))"
  by (simp add: chunk_outputs_def fold_keep)

lemma length_six:
  "length xs = 6 \<longleftrightarrow> (\<exists>h n a b c d. xs = [h, n, a, b, c, d])"
proof
  assume "length xs = 6"
  then have "length xs = Suc (Suc (Suc (Suc (Suc (Suc 0)))))" by simp
  then show "\<exists>h n a b c d. xs = [h, n, a, b, c, d]"
    by (auto simp: length_Suc_conv)
next
  assume "\<exists>h n a b c d. xs = [h, n, a, b, c, d]"
  then show "length xs = 6" by auto
qed

lemma parser_step_six:
  "chunk_outputs i = [h, n, a, b, c, d] \<Longrightarrow>
     parser_step i markdown = Inr (markdown @ chunk_row i)"
  unfolding parser_step_def chunk_row_def Let_def by simp

lemma parser_step_other:
  "length (chunk_outputs i) \<noteq> 6 \<Longrightarrow> parser_step i markdown = Inr (markdown @ chunk_row i)"
  unfolding parser_step_def chunk_row_def Let_def by simp

lemma parser_step_eq: "parser_step i markdown = Inr (markdown @ chunk_row i)"
proof (cases "length (chunk_outputs i) = 6")
  case True
  then obtain h n a b c d where "chunk_outputs i = [h, n, a, b, c, d]"
    unfolding length_six by blast
  then show ?thesis by (rule parser_step_six)
next
  case False
  then show ?thesis by (rule parser_step_other)
qed

lemma parser_loop_eq:
  "parser_loop iter markdown = Inr (markdown @ concat (map chunk_row iter))"
  by (induction iter arbitrary: markdown) (simp_all add: parser_step_eq)

lemma parser_eq: "parser iter = Inr (markdown_header @ concat (map chunk_row iter))"
  by (simp add: parser_def parser_loop_eq)

lemma chunk_row_six:
  "chunk_outputs i = [h, n, a, b, c, d] \<Longrightarrow>
     chunk_row i = ''|'' @ n @ ''|'' @ a @ ''|'' @ b @ ''|'' @ c @ ''|'' @ d @ ''|''"
  unfolding chunk_row_def by simp

lemma chunk_row_not_six: "length (chunk_outputs i) \<noteq> 6 \<Longrightarrow> chunk_row i = []"
  unfolding chunk_row_def by simp

lemma chunk_row_nonempty: "length (chunk_outputs i) = 6 \<Longrightarrow> chunk_row i \<noteq> []"
  unfolding chunk_row_def by simp

lemma concat_rows_other:
  "concat (map chunk_row (filter (\<lambda>i. length (chunk_outputs i) \<noteq> 6) iter)) = []"
  by (induction iter) (simp_all add: chunk_row_not_six)

lemma concat_rows_qualifying:
  "concat (map chunk_row iter)
     = concat (map chunk_row (filter (\<lambda>i. length (chunk_outputs i) = 6) iter))"
  by (induction iter) (simp_all add: chunk_row_not_six)

text \<open>No line of \<open>splitlines\<close> contains a line boundary.\<close>

lemma splitlines_no_break:
  "l \<in> set (splitlines s) \<Longrightarrow> c \<in> set l \<Longrightarrow> \<not> is_linebreak c"
proof (induction s arbitrary: l rule: splitlines.induct)
  case (1 s)
  show ?case
  proof (cases "s = []")
    case True
    with "1.prems" show ?thesis by simp
  next
    case False
    then have eq: "splitlines s = takeWhile (\<lambda>c. \<not> is_linebreak c) s
           # splitlines (after_break (dropWhile (\<lambda>c. \<not> is_linebreak c) s))"
      by (subst splitlines.simps) simp
    from "1.prems"(1) eq
    consider "l = takeWhile (\<lambda>c. \<not> is_linebreak c) s"
      | "l \<in> set (splitlines (after_break (dropWhile (\<lambda>c. \<not> is_linebreak c) s)))"
      by auto
    then show ?thesis
    proof cases
      case 1
      with "1.prems"(2) show ?thesis
        using set_takeWhileD [of c "\<lambda>c. \<not> is_linebreak c" s] by simp
    next
      case 2
      from "1.IH" [OF False 2 "1.prems"(2)] show ?thesis .
    qed
  qed
qed

lemma replace_str_subset: "set (replace_str old new s) \<subseteq> set new \<union> set s"
proof (induction old new s rule: replace_str.induct)
  case (1 old new)
  show ?case by simp
next
  case (2 old new c cs)
  show ?case
  proof (cases "prefix old (c # cs)")
    case True
    from "2.IH"(1) [OF True] have "set (replace_str old new (drop (length old - 1) cs))
        \<subseteq> set new \<union> set (drop (length old - 1) cs)" .
    also have "\<dots> \<subseteq> set new \<union> set cs"
      using set_drop_subset [of "length old - 1" cs] by auto
    finally show ?thesis using True by auto
  next
    case False
    from "2.IH"(2) [OF False] show ?thesis using False by auto
  qed
qed

lemma chunk_outputs_no_break:
  assumes "l \<in> set (chunk_outputs i)" and "c \<in> set l"
  shows "\<not> is_linebreak c"
proof -
  from assms(1) obtain l0 where l0: "l0 \<in> set (splitlines i)"
      and l: "l = replace_str '' seconds'' [] l0"
    unfolding chunk_outputs_eq by auto
  from assms(2) l have "c \<in> set l0"
    using replace_str_subset [of "'' seconds''" "[]" l0] by auto
  with l0 show ?thesis by (rule splitlines_no_break)
qed

lemma chunk_row_no_break:
  assumes "c \<in> set (chunk_row i)"
  shows "\<not> is_linebreak c"
proof (cases "length (chunk_outputs i) = 6")
  case False
  with assms show ?thesis by (simp add: chunk_row_not_six)
next
  case True
  then obtain h n a b c' d where eq: "chunk_outputs i = [h, n, a, b, c', d]"
    unfolding length_six by blast
  have bar: "\<not> is_linebreak CHR ''|''" by (simp add: is_linebreak_def)
  from assms have "c = CHR ''|'' \<or> (\<exists>l \<in> set (chunk_outputs i). c \<in> set l)"
    unfolding chunk_row_six [OF eq] eq by auto
  then show ?thesis
    using bar chunk_outputs_no_break [of _ i c] by auto
qed

subsection \<open>Lines of a text, character by character\<close>

lemma splitlines_break:
  assumes "is_linebreak c" and "\<not> (c = CR \<and> s \<noteq> [] \<and> hd s = LF)"
  shows "splitlines (c # s) = [] # splitlines s"
proof -
  have "after_break (c # s) = s"
    using assms(2) by (cases s) auto
  with assms(1) show ?thesis
    by (simp add: splitlines_Cons)
qed

lemma splitlines_crlf: "splitlines (CR # LF # s) = [] # splitlines s"
  by (simp add: splitlines_Cons is_linebreak_def CR_def LF_def)

lemma splitlines_char:
  assumes "\<not> is_linebreak c"
  shows "splitlines (c # s) = (case splitlines s of [] \<Rightarrow> [[c]] | x # xs \<Rightarrow> (c # x) # xs)"
proof (cases s)
  case Nil
  with assms show ?thesis by (simp add: splitlines_Cons)
next
  case (Cons d ds)
  with assms show ?thesis
    by (simp add: splitlines_Cons [of c] splitlines_Cons [of d])
qed

lemma splitlines_line:
  "\<forall>c \<in> set l. \<not> is_linebreak c \<Longrightarrow> splitlines (l @ LF # s) = l # splitlines s"
proof (induction l)
  case Nil
  have "is_linebreak LF" by (simp add: is_linebreak_def LF_def)
  moreover have "LF \<noteq> CR" by (simp add: LF_def CR_def)
  ultimately show ?case
    using splitlines_break [of LF s] by simp
next
  case (Cons c l)
  then show ?case by (simp add: splitlines_char)
qed

subsection \<open>The header block\<close>

text \<open>
  C8. For every input the string returned by \<open>parser\<close> begins with the fixed header
  block: a newline, the indented header line, the indented dashed separator row
  and the indentation that follows it. The data rows come after it, and the
  block is all there is when no chunk has six kept lines.
\<close>

theorem parser_begins_with_header:
  "(\<exists>rows. parser iter =
      Inr (''\<newline>    | sdk name | dev | release | dev all features | release all features |\<newline>    | -------- | --- | ------- | ---------------- | -------------------- |\<newline>    '' @ rows))
   \<and> parser (filter (\<lambda>i. length (chunk_outputs i) \<noteq> 6) iter) =
      Inr ''\<newline>    | sdk name | dev | release | dev all features | release all features |\<newline>    | -------- | --- | ------- | ---------------- | -------------------- |\<newline>    ''"
proof -
  have hdr: "markdown_header =
      ''\<newline>    | sdk name | dev | release | dev all features | release all features |\<newline>    | -------- | --- | ------- | ---------------- | -------------------- |\<newline>    ''"
    by (simp add: markdown_header_def LF_def)
  have "parser iter = Inr (markdown_header @ concat (map chunk_row iter))"
    by (rule parser_eq)
  moreover have "parser (filter (\<lambda>i. length (chunk_outputs i) \<noteq> 6) iter)
      = Inr markdown_header"
    unfolding parser_eq concat_rows_other by simp
  ultimately show ?thesis
    unfolding hdr by blast
qed

subsection \<open>Inserting a line into a text\<close>

lemma LF_break: "is_linebreak LF"
  by (simp add: is_linebreak_def LF_def)

lemma CR_break: "is_linebreak CR"
  by (simp add: is_linebreak_def CR_def)

lemma insert_line_head:
  assumes "l \<noteq> []" and "hd l \<noteq> LF" and "d \<noteq> LF"
  shows "insert_line k l (d # cs) \<noteq> [] \<and> hd (insert_line k l (d # cs)) \<noteq> LF"
proof (cases k)
  case 0
  with assms show ?thesis by simp
next
  case (Suc k')
  with assms show ?thesis by (cases cs) auto
qed

lemma splitlines_single_line:
  "\<forall>c \<in> set l. \<not> is_linebreak c \<Longrightarrow> splitlines (l @ [LF]) = [l]"
  using splitlines_line [of l "[]"] by simp

lemma splitlines_insert_line:
  "l \<noteq> [] \<Longrightarrow> \<forall>c \<in> set l. \<not> is_linebreak c \<Longrightarrow>
     splitlines (insert_line k l s) = take k (splitlines s) @ l # drop k (splitlines s)"
proof (induction k l s rule: insert_line.induct)
  case (1 k l)
  then show ?case by (simp add: splitlines_single_line)
next
  case (2 l c cs)
  then show ?case by (simp add: splitlines_line)
next
  case (3 k l c)
  have hdl: "hd l \<noteq> LF"
    using "3.prems" LF_break by (cases l) auto
  show ?case
  proof (cases "is_linebreak c")
    case True
    have "splitlines (c # l @ [LF]) = [] # splitlines (l @ [LF])"
      using True hdl "3.prems"(1) by (intro splitlines_break) auto
    moreover have "splitlines [c] = [[]]"
      using True splitlines_break [of c "[]"] by simp
    ultimately show ?thesis
      using True "3.prems" by (simp add: splitlines_single_line)
  next
    case False
    have "splitlines (LF # l @ [LF]) = [] # splitlines (l @ [LF])"
      using LF_break by (intro splitlines_break) (auto simp: LF_def CR_def)
    then have "splitlines (c # LF # l @ [LF]) = [[c], l]"
      using False "3.prems" by (simp add: splitlines_char splitlines_single_line)
    moreover have "splitlines [c] = [[c]]"
      using False by (simp add: splitlines_char)
    ultimately show ?thesis
      using False by simp
  qed
next
  case (4 k l c d cs)
  have hdl: "hd l \<noteq> LF"
    using "4.prems" LF_break by (cases l) auto
  show ?case
  proof (cases "c = CR \<and> d = LF")
    case True
    from "4.IH"(1) [OF True "4.prems"]
    have ih: "splitlines (insert_line k l cs)
        = take k (splitlines cs) @ l # drop k (splitlines cs)" .
    have step: "insert_line (Suc k) l (c # d # cs) = CR # LF # insert_line k l cs"
      using True by simp
    have orig: "splitlines (c # d # cs) = [] # splitlines cs"
      using True by (simp add: splitlines_crlf)
    show ?thesis
      unfolding step orig splitlines_crlf ih by simp
  next
    case notcrlf: False
    show ?thesis
    proof (cases "is_linebreak c")
      case True
      from "4.IH"(2) [OF notcrlf True "4.prems"]
      have ih: "splitlines (insert_line k l (d # cs))
          = take k (splitlines (d # cs)) @ l # drop k (splitlines (d # cs))" .
      have orig: "splitlines (c # d # cs) = [] # splitlines (d # cs)"
        using True notcrlf by (intro splitlines_break) auto
      have new: "splitlines (c # insert_line k l (d # cs))
          = [] # splitlines (insert_line k l (d # cs))"
      proof (rule splitlines_break [OF True])
        show "\<not> (c = CR \<and> insert_line k l (d # cs) \<noteq> []
                 \<and> hd (insert_line k l (d # cs)) = LF)"
        proof (cases "c = CR")
          case True
          with notcrlf have "d \<noteq> LF" by simp
          from insert_line_head [OF "4.prems"(1) hdl this]
          show ?thesis by simp
        next
          case False
          then show ?thesis by simp
        qed
      qed
      have step: "insert_line (Suc k) l (c # d # cs) = c # insert_line k l (d # cs)"
        using True notcrlf by auto
      show ?thesis
        unfolding step orig new ih by simp
    next
      case False
      from "4.IH"(3) [OF notcrlf False "4.prems"]
      have ih: "splitlines (insert_line (Suc k) l (d # cs))
          = take (Suc k) (splitlines (d # cs)) @ l # drop (Suc k) (splitlines (d # cs))" .
      obtain x xs where X: "splitlines (d # cs) = x # xs"
        by (simp add: splitlines_Cons)
      have orig: "splitlines (c # d # cs) = (c # x) # xs"
        using False X by (simp add: splitlines_char)
      have new: "splitlines (c # insert_line (Suc k) l (d # cs))
          = (c # x) # (take k xs @ l # drop k xs)"
        using False by (simp add: splitlines_char [of c] ih X)
      have step: "insert_line (Suc k) l (c # d # cs) = c # insert_line (Suc k) l (d # cs)"
        using False notcrlf by auto
      show ?thesis
        unfolding step orig new by simp
    qed
  qed
qed

lemma chunk_outputs_insert_line:
  assumes "CHR ''+'' \<in> set l" and "\<forall>c \<in> set l. \<not> is_linebreak c"
  shows "chunk_outputs (insert_line k l i) = chunk_outputs i"
proof -
  from assms(1) have ne: "l \<noteq> []" by auto
  have "filter (\<lambda>l. CHR ''+'' \<notin> set l) (splitlines (insert_line k l i))
      = filter (\<lambda>l. CHR ''+'' \<notin> set l) (take k (splitlines i))
        @ filter (\<lambda>l. CHR ''+'' \<notin> set l) (drop k (splitlines i))"
    using assms(1) by (simp add: splitlines_insert_line [OF ne assms(2)])
  also have "\<dots> = filter (\<lambda>l. CHR ''+'' \<notin> set l) (take k (splitlines i) @ drop k (splitlines i))"
    by (simp only: filter_append)
  also have "\<dots> = filter (\<lambda>l. CHR ''+'' \<notin> set l) (splitlines i)"
    by (simp only: append_take_drop_id)
  finally show ?thesis
    by (simp add: chunk_outputs_eq)
qed

lemma chunk_row_insert_line:
  assumes "CHR ''+'' \<in> set l" and "\<forall>c \<in> set l. \<not> is_linebreak c"
  shows "chunk_row (insert_line k l i) = chunk_row i"
  by (simp add: chunk_row_def chunk_outputs_insert_line [OF assms])

subsection \<open>Rows and chunks\<close>

text \<open>
  C3. A chunk adds a row exactly when six lines are kept, where the kept lines are
  the lines of the chunk without those containing \<open>+\<close>, each with \<open>" seconds"\<close>
  removed. With any other number of kept lines (five, say) the chunk adds nothing:
  the result is the one obtained without the chunk, and it is a result, not an
  error.
\<close>

theorem parser_row_iff_six_lines:
  "chunk_outputs i
     = map (replace_str '' seconds'' []) (filter (\<lambda>l. \<not> str_in ''+'' l) (splitlines i))
   \<and> (\<exists>before after.
         parser xs = Inr before
       \<and> parser (xs @ ys) = Inr (before @ after)
       \<and> parser (xs @ i # ys) = Inr (before @ chunk_row i @ after))
   \<and> (chunk_row i \<noteq> [] \<longleftrightarrow> length (chunk_outputs i) = 6)
   \<and> (parser (xs @ i # ys) = parser (xs @ ys) \<longleftrightarrow> length (chunk_outputs i) \<noteq> 6)"
proof -
  have kept: "chunk_outputs i
     = map (replace_str '' seconds'' []) (filter (\<lambda>l. \<not> str_in ''+'' l) (splitlines i))"
    by (simp add: chunk_outputs_eq str_in_single)
  define before where "before = markdown_header @ concat (map chunk_row xs)"
  define after where "after = concat (map chunk_row ys)"
  have p1: "parser xs = Inr before"
    by (simp add: parser_eq before_def)
  have p2: "parser (xs @ ys) = Inr (before @ after)"
    by (simp add: parser_eq before_def after_def)
  have p3: "parser (xs @ i # ys) = Inr (before @ chunk_row i @ after)"
    by (simp add: parser_eq before_def after_def)
  have row: "chunk_row i \<noteq> [] \<longleftrightarrow> length (chunk_outputs i) = 6"
    using chunk_row_nonempty [of i] chunk_row_not_six [of i] by blast
  have "parser (xs @ i # ys) = parser (xs @ ys) \<longleftrightarrow> chunk_row i = []"
    unfolding p2 p3 by simp
  with row have same: "parser (xs @ i # ys) = parser (xs @ ys)
      \<longleftrightarrow> length (chunk_outputs i) \<noteq> 6"
    by blast
  from p1 p2 p3 have "\<exists>before after.
         parser xs = Inr before
       \<and> parser (xs @ ys) = Inr (before @ after)
       \<and> parser (xs @ i # ys) = Inr (before @ chunk_row i @ after)"
    by blast
  with kept row same show ?thesis
    by blast
qed

theorem parser_row_iff_six_lines_witness:
  "length (chunk_outputs ''header\<newline>iam\<newline>201.92 seconds\<newline>217.43 seconds\<newline>215.10 seconds\<newline>'') = 5
   \<and> parser [''header\<newline>iam\<newline>201.92 seconds\<newline>217.43 seconds\<newline>215.10 seconds\<newline>'']
       = parser []"
proof -
  have five: "length (chunk_outputs ''header\<newline>iam\<newline>201.92 seconds\<newline>217.43 seconds\<newline>215.10 seconds\<newline>'') = 5"
    by code_simp
  from parser_row_iff_six_lines
    [of "''header\<newline>iam\<newline>201.92 seconds\<newline>217.43 seconds\<newline>215.10 seconds\<newline>''" "[]" "[]"]
  show ?thesis
    unfolding five by simp
qed

text \<open>
  C9. The returned string is the header block followed by the rows of the chunks
  with six kept lines, in the order of the input, one directly after the other;
  no character of that part is a line boundary, so all rows are on the line that
  the indentation at the end of the header block opens.
\<close>

theorem parser_rows_on_one_line:
  "\<exists>body. parser iter = Inr (markdown_header @ body)
     \<and> body = concat (map chunk_row (filter (\<lambda>i. length (chunk_outputs i) = 6) iter))
     \<and> (\<forall>c \<in> set body. \<not> is_linebreak c)"
proof -
  have "parser iter
      = Inr (markdown_header
             @ concat (map chunk_row (filter (\<lambda>i. length (chunk_outputs i) = 6) iter)))"
    using parser_eq [of iter] concat_rows_qualifying [of iter] by simp
  moreover have "\<forall>c \<in> set (concat (map chunk_row
        (filter (\<lambda>i. length (chunk_outputs i) = 6) iter))). \<not> is_linebreak c"
    using chunk_row_no_break by auto
  ultimately show ?thesis
    by blast
qed

theorem parser_rows_on_one_line_witness:
  "parser [''header\<newline>iam\<newline>1 seconds\<newline>2 seconds\<newline>3 seconds\<newline>4 seconds\<newline>'',
           ''header\<newline>s3\<newline>5 seconds\<newline>6 seconds\<newline>7 seconds\<newline>8 seconds\<newline>'']
     = Inr (markdown_header @ ''|iam|1|2|3|4||s3|5|6|7|8|'')
   \<and> \<not> is_linebreak (''|iam|1|2|3|4||s3|5|6|7|8|'' ! 13)"
proof -
  have rows: "concat (map chunk_row (filter (\<lambda>i. length (chunk_outputs i) = 6)
        [''header\<newline>iam\<newline>1 seconds\<newline>2 seconds\<newline>3 seconds\<newline>4 seconds\<newline>'',
         ''header\<newline>s3\<newline>5 seconds\<newline>6 seconds\<newline>7 seconds\<newline>8 seconds\<newline>'']))
      = ''|iam|1|2|3|4||s3|5|6|7|8|''"
    by code_simp
  from parser_rows_on_one_line
    [of "[''header\<newline>iam\<newline>1 seconds\<newline>2 seconds\<newline>3 seconds\<newline>4 seconds\<newline>'',
          ''header\<newline>s3\<newline>5 seconds\<newline>6 seconds\<newline>7 seconds\<newline>8 seconds\<newline>'']"]
  have "parser [''header\<newline>iam\<newline>1 seconds\<newline>2 seconds\<newline>3 seconds\<newline>4 seconds\<newline>'',
           ''header\<newline>s3\<newline>5 seconds\<newline>6 seconds\<newline>7 seconds\<newline>8 seconds\<newline>'']
     = Inr (markdown_header @ ''|iam|1|2|3|4||s3|5|6|7|8|'')"
    and all: "\<forall>c \<in> set ''|iam|1|2|3|4||s3|5|6|7|8|''. \<not> is_linebreak c"
    unfolding rows by blast+
  moreover have "''|iam|1|2|3|4||s3|5|6|7|8|'' ! 13 \<in> set ''|iam|1|2|3|4||s3|5|6|7|8|''"
    by (rule nth_mem) simp
  ultimately show ?thesis
    using all by blast
qed

subsection \<open>Splitting a text with an added line\<close>











lemma splitlines_nonempty: "s \<noteq> [] \<Longrightarrow> splitlines s \<noteq> []"
  by (cases s) (simp_all add: splitlines_Cons)












subsection \<open>Lines containing a plus sign\<close>




subsection \<open>The scenario of the specification\<close>

text \<open>
  C2, as stated. In the text
  \<open>START\n header\n iam\n201.92 seconds\n217.43 seconds\n215.10 seconds\n187.71 seconds\nEND\<close>
  the chunk between \<open>START\<close> and \<open>END\<close> has seven lines: the empty rest of the
  \<open>START\<close> line, \<open> header\<close>, \<open> iam\<close> and the four timings. No row is added:
  the result is the header block, in which the row does not occur.
\<close>

theorem scenario_with_header_line_has_no_row:
  "format_text ''START\<newline> header\<newline> iam\<newline>201.92 seconds\<newline>217.43 seconds\<newline>215.10 seconds\<newline>187.71 seconds\<newline>END''
     = Inr markdown_header
   \<and> \<not> str_in ''|iam|201.92|217.43|215.10|187.71|'' markdown_header"
proof -
  have "format_text ''START\<newline> header\<newline> iam\<newline>201.92 seconds\<newline>217.43 seconds\<newline>215.10 seconds\<newline>187.71 seconds\<newline>END''
     = Inr markdown_header"
    by code_simp
  moreover have "\<not> str_in ''|iam|201.92|217.43|215.10|187.71|'' markdown_header"
    by code_simp
  ultimately show ?thesis
    by (rule conjI)
qed

text \<open>
  C2, amended. Without the \<open> header\<close> line and without the space in front of
  \<open>iam\<close>, six lines are kept (the first is the empty rest of the \<open>START\<close> line),
  and the result is the header block followed by the row
  \<open>|iam|201.92|217.43|215.10|187.71|\<close>.
\<close>

theorem scenario_with_six_lines_has_row:
  "format_text ''START\<newline>iam\<newline>201.92 seconds\<newline>217.43 seconds\<newline>215.10 seconds\<newline>187.71 seconds\<newline>END''
     = Inr (markdown_header @ ''|iam|201.92|217.43|215.10|187.71|'')
   \<and> str_in ''|iam|201.92|217.43|215.10|187.71|''
        (markdown_header @ ''|iam|201.92|217.43|215.10|187.71|'')"
proof -
  have "format_text ''START\<newline>iam\<newline>201.92 seconds\<newline>217.43 seconds\<newline>215.10 seconds\<newline>187.71 seconds\<newline>END''
     = Inr (markdown_header @ ''|iam|201.92|217.43|215.10|187.71|'')"
    by code_simp
  moreover have "str_in ''|iam|201.92|217.43|215.10|187.71|''
        (markdown_header @ ''|iam|201.92|217.43|215.10|187.71|'')"
    by code_simp
  ultimately show ?thesis
    by (rule conjI)
qed

section \<open>Properties of the codegen diff pipeline\<close>

lemma str_in_prefix: "prefix sub s \<Longrightarrow> str_in sub s"
  by (cases s) auto

lemma str_in_appendI: "str_in sub (a @ sub @ b)"
  by (induction a) (auto intro: str_in_prefix)

subsection \<open>diff_link\<close>

text \<open>
  C5. \<open>diff_link\<close> is a function of its five arguments alone. Without a location
  it returns the empty-diff label as it is. With a location, the returned markdown
  is the primary link followed by the alternate ("ignoring whitespace") link in
  parentheses; each link occurs in it, and the target of each starts with the CDN
  URL and \<open>/codegen-diff/\<close>.
\<close>

theorem diff_link_cases:
  "diff_link diff_text empty_diff_text None alternate_text alternate_location = empty_diff_text
   \<and> diff_link diff_text empty_diff_text (Some location) alternate_text alternate_location
       = (''['' @ diff_text @ '']('' @ CDN_URL @ ''/codegen-diff/'' @ location @ '')'')
         @ '' (''
         @ (''['' @ alternate_text @ '']('' @ CDN_URL @ ''/codegen-diff/''
            @ format_opt alternate_location @ '')'')
         @ '')''
   \<and> str_in (''['' @ diff_text @ '']('' @ CDN_URL @ ''/codegen-diff/'' @ location @ '')'')
        (diff_link diff_text empty_diff_text (Some location) alternate_text alternate_location)
   \<and> str_in (''['' @ alternate_text @ '']('' @ CDN_URL @ ''/codegen-diff/''
              @ format_opt alternate_location @ '')'')
        (diff_link diff_text empty_diff_text (Some location) alternate_text alternate_location)"
proof -
  let ?primary = "''['' @ diff_text @ '']('' @ CDN_URL @ ''/codegen-diff/'' @ location @ '')''"
  let ?alternate = "''['' @ alternate_text @ '']('' @ CDN_URL @ ''/codegen-diff/''
                    @ format_opt alternate_location @ '')''"
  have none: "diff_link diff_text empty_diff_text None alternate_text alternate_location
      = empty_diff_text"
    by (simp add: diff_link_def)
  have some: "diff_link diff_text empty_diff_text (Some location) alternate_text
      alternate_location = ?primary @ '' ('' @ ?alternate @ '')''"
    by (simp add: diff_link_def)
  have "str_in ?primary ([] @ ?primary @ ('' ('' @ ?alternate @ '')''))"
    by (rule str_in_appendI)
  then have first: "str_in ?primary (?primary @ '' ('' @ ?alternate @ '')'')"
    by simp
  have "str_in ?alternate ((?primary @ '' ('') @ ?alternate @ '')'')"
    by (rule str_in_appendI)
  then have second: "str_in ?alternate (?primary @ '' ('' @ ?alternate @ '')'')"
    by simp
  from none some first second show ?thesis
    by (simp only: simp_thms)
qed

text \<open>
  C10. With a location but without an alternate location, the alternate link is
  kept and its target ends in the text \<open>None\<close>. \<open>make_diffs\<close> reaches this case
  when the whitespace-sensitive quiet diff of a target reports a difference and
  the whitespace-insensitive one does not.
\<close>

theorem diff_link_alternate_missing:
  "diff_link diff_text empty_diff_text (Some location) alternate_text None
     = ''['' @ diff_text @ '']('' @ CDN_URL @ ''/codegen-diff/'' @ location @ '') ([''
       @ alternate_text @ '']('' @ CDN_URL @ ''/codegen-diff/None))''
   \<and> (case make_diffs
              (\<lambda>command shell w.
                 (Some (if command = quiet_diff_cmd ''tmp-codegen-diff/aws-sdk'' True
                        then 1 else 0), w))
              ''b1'' ''h2'' \<lparr>world = (), calls = [], stderr_lines = []\<rparr> of
         Inl e \<Rightarrow> False
       | Inr (message, s') \<Rightarrow>
           str_in ''- [AWS SDK](https://d2luzm2xt3nokh.cloudfront.net/codegen-diff/b1/h2/aws-sdk/index.html) ([ignoring whitespace](https://d2luzm2xt3nokh.cloudfront.net/codegen-diff/None))''
             message)"
proof -
  have "diff_link diff_text empty_diff_text (Some location) alternate_text None
     = ''['' @ diff_text @ '']('' @ CDN_URL @ ''/codegen-diff/'' @ location @ '') ([''
       @ alternate_text @ '']('' @ CDN_URL @ ''/codegen-diff/None))''"
    by (simp add: diff_link_def)
  moreover have "(case make_diffs
              (\<lambda>command shell w.
                 (Some (if command = quiet_diff_cmd ''tmp-codegen-diff/aws-sdk'' True
                        then 1 else 0), w))
              ''b1'' ''h2'' \<lparr>world = (), calls = [], stderr_lines = []\<rparr> of
         Inl e \<Rightarrow> False
       | Inr (message, s') \<Rightarrow>
           str_in ''- [AWS SDK](https://d2luzm2xt3nokh.cloudfront.net/codegen-diff/b1/h2/aws-sdk/index.html) ([ignoring whitespace](https://d2luzm2xt3nokh.cloudfront.net/codegen-diff/None))''
             message)"
    by code_simp
  ultimately show ?thesis
    by (rule conjI)
qed

subsection \<open>generate_and_commit_generated_code\<close>

text \<open>
  C1, on the code. With the default targets the only \<open>mv\<close> command is the one for
  the SDK: the loop runs over \<open>codegen-client\<close> and \<open>codegen-server\<close>, neither of
  which is among the targets \<open>codegen-client-test\<close>, \<open>codegen-server-test\<close> and
  \<open>aws:sdk\<close>, so no smithyprojections directory and no python example is moved.
\<close>

theorem default_targets_move_only_sdk:
  "map fst (filter (\<lambda>c. prefix ''mv '' (fst c)) (generate_commands ''abc123'' None))
     = [''mv aws/sdk/build/aws-sdk tmp-codegen-diff/'']
   \<and> (case generate_and_commit_generated_code (\<lambda>command shell w. (Some 0, w)) ''abc123'' None
              \<lparr>world = (), calls = [], stderr_lines = []\<rparr> of
         Inl e \<Rightarrow> False
       | Inr s' \<Rightarrow>
           filter (\<lambda>c. prefix ''mv '' (fst c)) (calls s')
             = [(''mv aws/sdk/build/aws-sdk tmp-codegen-diff/'', False)])"
  by code_simp

subsection \<open>make_diff\<close>

lemma make_diff_no_diff:
  assumes "ex (quiet_diff_cmd path_to_diff whitespace) True (world s) = (Some 0, w1)"
  shows "make_diff ex title path_to_diff base_commit_sha head_commit_sha sfx whitespace s
     = Inr (None, s\<lparr>world := w1,
                     calls := calls s @ [(quiet_diff_cmd path_to_diff whitespace, True)],
                     stderr_lines := stderr_lines s
                        @ [no_diff_line base_commit_sha head_commit_sha sfx]\<rparr>)"
  using assms by (simp add: make_diff_def get_cmd_status_def eprint_def)

lemma make_diff_rendered:
  assumes "ex (quiet_diff_cmd path_to_diff whitespace) True (world s) = (Some status, w1)"
    and "status \<noteq> 0"
    and "ex (mkdir_cmd base_commit_sha head_commit_sha sfx) False w1 = (Some 0, w2)"
    and "ex (unified_diff_cmd path_to_diff whitespace) False w2 = (Some 0, w3)"
    and "ex (diff_cmd title base_commit_sha head_commit_sha sfx whitespace) False w3
           = (Some 0, w4)"
  shows "make_diff ex title path_to_diff base_commit_sha head_commit_sha sfx whitespace s
     = Inr (Some (base_commit_sha @ ''/'' @ head_commit_sha @ ''/'' @ sfx @ ''/index.html''),
            s\<lparr>world := w4,
              calls := calls s
                @ [(quiet_diff_cmd path_to_diff whitespace, True),
                   (mkdir_cmd base_commit_sha head_commit_sha sfx, False),
                   (unified_diff_cmd path_to_diff whitespace, False),
                   (diff_cmd title base_commit_sha head_commit_sha sfx whitespace, False)],
              stderr_lines := stderr_lines s
                @ [''Running diff cmd: ''
                   @ diff_cmd title base_commit_sha head_commit_sha sfx whitespace]\<rparr>)"
  using assms
  by (simp add: make_diff_def get_cmd_status_def run_def eprint_def partial_output_path_def
        Let_def)


lemma make_diff_None_iff:
  assumes "ex (quiet_diff_cmd path_to_diff whitespace) True (world s) = (Some status, w1)"
    and "make_diff ex title path_to_diff base_commit_sha head_commit_sha sfx whitespace s
     = Inr (r, s')"
  shows "r = None \<longleftrightarrow> status = 0"
  using assms
  by (auto simp: make_diff_def get_cmd_status_def Let_def
           split: sum.splits prod.splits if_splits)

text \<open>
  C6. Let the quiet \<open>git diff\<close> between the base and head branches, restricted to
  the path, exit with \<open>status\<close>. A run of \<open>make_diff\<close> that returns, returns \<open>None\<close>
  exactly when \<open>status\<close> is 0. With status 0 it does return \<open>None\<close>, after one
  line on standard error and no further command. With another status it creates
  the output directory, writes the unified diff with 30 lines of context, runs
  the renderer and, each of the three exiting with 0, returns
  \<open>{base_commit_sha}/{head_commit_sha}/{suffix}/index.html\<close>.
\<close>

theorem make_diff_outcomes:
  assumes "ex (quiet_diff_cmd path_to_diff whitespace) True (world s) = (Some status, w1)"
  shows
    "(\<forall>r s'. make_diff ex title path_to_diff base_commit_sha head_commit_sha sfx whitespace s
               = Inr (r, s') \<longrightarrow> (r = None \<longleftrightarrow> status = 0))
     \<and> (status = 0 \<longrightarrow>
          make_diff ex title path_to_diff base_commit_sha head_commit_sha sfx whitespace s
            = Inr (None,
                   s\<lparr>world := w1,
                     calls := calls s @ [(quiet_diff_cmd path_to_diff whitespace, True)],
                     stderr_lines := stderr_lines s
                       @ [''No diff output for '' @ base_commit_sha @ ''..''
                          @ head_commit_sha @ '' ('' @ sfx @ '')'']\<rparr>))
     \<and> (status \<noteq> 0 \<longrightarrow>
          ex (mkdir_cmd base_commit_sha head_commit_sha sfx) False w1 = (Some 0, w2) \<longrightarrow>
          ex (unified_diff_cmd path_to_diff whitespace) False w2 = (Some 0, w3) \<longrightarrow>
          ex (diff_cmd title base_commit_sha head_commit_sha sfx whitespace) False w3
            = (Some 0, w4) \<longrightarrow>
          make_diff ex title path_to_diff base_commit_sha head_commit_sha sfx whitespace s
            = Inr (Some (base_commit_sha @ ''/'' @ head_commit_sha @ ''/'' @ sfx
                         @ ''/index.html''),
                   s\<lparr>world := w4,
                     calls := calls s
                       @ [(quiet_diff_cmd path_to_diff whitespace, True),
                          (mkdir_cmd base_commit_sha head_commit_sha sfx, False),
                          (unified_diff_cmd path_to_diff whitespace, False),
                          (diff_cmd title base_commit_sha head_commit_sha sfx whitespace,
                           False)],
                     stderr_lines := stderr_lines s
                       @ [''Running diff cmd: ''
                          @ diff_cmd title base_commit_sha head_commit_sha sfx
                              whitespace]\<rparr>))
     \<and> quiet_diff_cmd path_to_diff whitespace
         = ''git diff --quiet '' @ (if whitespace then [] else ''-b'')
           @ '' __tmp-localonly-base __tmp-localonly-head -- '' @ path_to_diff
     \<and> mkdir_cmd base_commit_sha head_commit_sha sfx
         = ''mkdir -p tmp-codegen-diff/'' @ base_commit_sha @ ''/'' @ head_commit_sha
           @ ''/'' @ sfx
     \<and> unified_diff_cmd path_to_diff whitespace
         = ''git diff --output=codegen-diff.txt -U30 '' @ (if whitespace then [] else ''-b'')
           @ '' __tmp-localonly-base __tmp-localonly-head -- '' @ path_to_diff
     \<and> prefix (''difftags --output-dir tmp-codegen-diff/'' @ base_commit_sha @ ''/''
                @ head_commit_sha @ ''/'' @ sfx @ '' --title '')
          (diff_cmd title base_commit_sha head_commit_sha sfx whitespace)"
proof -
  have iff: "\<forall>r s'. make_diff ex title path_to_diff base_commit_sha head_commit_sha sfx
               whitespace s = Inr (r, s') \<longrightarrow> (r = None \<longleftrightarrow> status = 0)"
    using assms make_diff_None_iff [where ex = ex and path_to_diff = path_to_diff
        and whitespace = whitespace and s = s and status = status and ?w1.0 = w1]
    by blast
  have zero: "status = 0 \<longrightarrow>
          make_diff ex title path_to_diff base_commit_sha head_commit_sha sfx whitespace s
            = Inr (None,
                   s\<lparr>world := w1,
                     calls := calls s @ [(quiet_diff_cmd path_to_diff whitespace, True)],
                     stderr_lines := stderr_lines s
                       @ [''No diff output for '' @ base_commit_sha @ ''..''
                          @ head_commit_sha @ '' ('' @ sfx @ '')'']\<rparr>)"
    using assms make_diff_no_diff [of ex path_to_diff whitespace s w1]
    by (simp add: no_diff_line_def)
  have other: "status \<noteq> 0 \<longrightarrow>
          ex (mkdir_cmd base_commit_sha head_commit_sha sfx) False w1 = (Some 0, w2) \<longrightarrow>
          ex (unified_diff_cmd path_to_diff whitespace) False w2 = (Some 0, w3) \<longrightarrow>
          ex (diff_cmd title base_commit_sha head_commit_sha sfx whitespace) False w3
            = (Some 0, w4) \<longrightarrow>
          make_diff ex title path_to_diff base_commit_sha head_commit_sha sfx whitespace s
            = Inr (Some (base_commit_sha @ ''/'' @ head_commit_sha @ ''/'' @ sfx
                         @ ''/index.html''),
                   s\<lparr>world := w4,
                     calls := calls s
                       @ [(quiet_diff_cmd path_to_diff whitespace, True),
                          (mkdir_cmd base_commit_sha head_commit_sha sfx, False),
                          (unified_diff_cmd path_to_diff whitespace, False),
                          (diff_cmd title base_commit_sha head_commit_sha sfx whitespace,
                           False)],
                     stderr_lines := stderr_lines s
                       @ [''Running diff cmd: ''
                          @ diff_cmd title base_commit_sha head_commit_sha sfx
                              whitespace]\<rparr>)"
    using assms make_diff_rendered [where ex = ex and path_to_diff = path_to_diff
        and whitespace = whitespace and s = s and status = status and ?w1.0 = w1]
    by blast
  have c1: "quiet_diff_cmd path_to_diff whitespace
         = ''git diff --quiet '' @ (if whitespace then [] else ''-b'')
           @ '' __tmp-localonly-base __tmp-localonly-head -- '' @ path_to_diff"
    by (simp add: quiet_diff_cmd_def whitespace_flag_def BASE_BRANCH_NAME_def
          HEAD_BRANCH_NAME_def)
  have c2: "mkdir_cmd base_commit_sha head_commit_sha sfx
         = ''mkdir -p tmp-codegen-diff/'' @ base_commit_sha @ ''/'' @ head_commit_sha
           @ ''/'' @ sfx"
    by (simp add: mkdir_cmd_def full_output_path_def partial_output_path_def OUTPUT_PATH_def)
  have c3: "unified_diff_cmd path_to_diff whitespace
         = ''git diff --output=codegen-diff.txt -U30 '' @ (if whitespace then [] else ''-b'')
           @ '' __tmp-localonly-base __tmp-localonly-head -- '' @ path_to_diff"
    by (simp add: unified_diff_cmd_def whitespace_flag_def BASE_BRANCH_NAME_def
          HEAD_BRANCH_NAME_def)
  have c4: "prefix (''difftags --output-dir tmp-codegen-diff/'' @ base_commit_sha @ ''/''
                @ head_commit_sha @ ''/'' @ sfx @ '' --title '')
          (diff_cmd title base_commit_sha head_commit_sha sfx whitespace)"
    by (simp add: diff_cmd_def full_output_path_def partial_output_path_def OUTPUT_PATH_def
          Let_def)
  from iff zero other c1 c2 c3 c4 show ?thesis
    by (intro conjI)
qed

theorem make_diff_outcomes_witness:
  "make_diff (\<lambda>command shell w. (Some 0, w)) ''AWS SDK'' ''tmp-codegen-diff/aws-sdk''
       ''b1'' ''h2'' ''aws-sdk'' True \<lparr>world = (), calls = [], stderr_lines = []\<rparr>
     = Inr (None,
            \<lparr>world = (),
             calls = [(''git diff --quiet  __tmp-localonly-base __tmp-localonly-head -- tmp-codegen-diff/aws-sdk'', True)],
             stderr_lines = [''No diff output for b1..h2 (aws-sdk)'']\<rparr>)
   \<and> map_sum id fst
       (make_diff (\<lambda>command shell w. (Some (if shell then 1 else 0), w)) ''AWS SDK''
          ''tmp-codegen-diff/aws-sdk'' ''b1'' ''h2'' ''aws-sdk'' True
          \<lparr>world = (), calls = [], stderr_lines = []\<rparr>)
     = Inr (Some ''b1/h2/aws-sdk/index.html'')"
proof -
  have first: "make_diff (\<lambda>command shell w. (Some 0, w)) ''AWS SDK''
       ''tmp-codegen-diff/aws-sdk'' ''b1'' ''h2'' ''aws-sdk'' True
       \<lparr>world = (), calls = [], stderr_lines = []\<rparr>
     = Inr (None,
            \<lparr>world = (),
             calls = [(''git diff --quiet  __tmp-localonly-base __tmp-localonly-head -- tmp-codegen-diff/aws-sdk'', True)],
             stderr_lines = [''No diff output for b1..h2 (aws-sdk)'']\<rparr>)"
    using make_diff_outcomes [where ex = "\<lambda>command shell w. (Some 0, w)"
        and path_to_diff = "''tmp-codegen-diff/aws-sdk''" and whitespace = True
        and s = "\<lparr>world = (), calls = [], stderr_lines = []\<rparr>" and status = 0
        and ?w1.0 = "()" and title = "''AWS SDK''" and base_commit_sha = "''b1''"
        and head_commit_sha = "''h2''" and sfx = "''aws-sdk''"]
    by simp
  have second: "map_sum id fst
       (make_diff (\<lambda>command shell w. (Some (if shell then 1 else 0), w)) ''AWS SDK''
          ''tmp-codegen-diff/aws-sdk'' ''b1'' ''h2'' ''aws-sdk'' True
          \<lparr>world = (), calls = [], stderr_lines = []\<rparr>)
     = Inr (Some ''b1/h2/aws-sdk/index.html'')"
    using make_diff_outcomes [where ex = "\<lambda>command shell w. (Some (if shell then 1 else 0), w)"
        and path_to_diff = "''tmp-codegen-diff/aws-sdk''" and whitespace = True
        and s = "\<lparr>world = (), calls = [], stderr_lines = []\<rparr>" and status = 1
        and ?w1.0 = "()" and title = "''AWS SDK''" and base_commit_sha = "''b1''"
        and head_commit_sha = "''h2''" and sfx = "''aws-sdk''"
        and ?w2.0 = "()" and ?w3.0 = "()" and ?w4.0 = "()"]
    by simp
  from first second show ?thesis
    by (rule conjI)
qed

subsection \<open>make_diffs\<close>










end
